theory Spec2Isabelle
  imports Complex_Main "HOL-Library.Sublist" "HOL-Library.AList"
begin

section \<open>The LLM client of \<open>backend/llm_client.py\<close>\<close>

text \<open>
  The module has a provider table (\<open>PROVIDER_CONFIGS\<close>), a single dispatch
  (\<open>query_model\<close>) and a fan-out (\<open>query_models_parallel\<close>). Python strings are
  modelled as \<open>string\<close>; \<open>str.startswith\<close> is \<open>prefix\<close> and the slice
  \<open>s[len(p):]\<close> is \<open>drop (length p) s\<close>.
\<close>

subsection \<open>Provider table\<close>

text \<open>
  One entry of the table. The credential comes from the environment and may be
  \<open>None\<close>.
\<close>

record provider_config =
  api_key :: "string option"
  api_url :: string
  model_prefix :: string
  header_auth_prefix :: string

text \<open>
  The names imported from \<open>.config\<close>. That module is not part of the sources at
  hand, so its four values are a parameter of the table.
\<close>

record config_module =
  OPENROUTER_API_KEY :: "string option"
  OPENROUTER_API_URL :: string
  DEEPSEEK_API_KEY :: "string option"
  OPENAI_API_KEY :: "string option"

definition DEEPSEEK_API_URL :: string where
  "DEEPSEEK_API_URL = ''https://api.deepseek.com/chat/completions''"

definition OPENAI_API_URL :: string where
  "OPENAI_API_URL = ''https://api.openai.com/v1/chat/completions''"

text \<open>
  A Python dict iterates in insertion order, so the table is an association list
  in the order of the literal; \<open>.get\<close> is \<open>map_of\<close>.
\<close>

type_synonym registry = "(string \<times> provider_config) list"

definition PROVIDER_CONFIGS :: "config_module \<Rightarrow> registry" where
  "PROVIDER_CONFIGS env =
    [(''openrouter'',
        \<lparr>api_key = OPENROUTER_API_KEY env, api_url = OPENROUTER_API_URL env,
         model_prefix = ''openrouter::'', header_auth_prefix = ''Bearer ''\<rparr>),
     (''deepseek'',
        \<lparr>api_key = DEEPSEEK_API_KEY env, api_url = DEEPSEEK_API_URL,
         model_prefix = ''deepseek::'', header_auth_prefix = ''Bearer ''\<rparr>),
     (''openai'',
        \<lparr>api_key = OPENAI_API_KEY env, api_url = OPENAI_API_URL,
         model_prefix = ''openai::'', header_auth_prefix = ''Bearer ''\<rparr>)]"

subsection \<open>Resolution of a model identifier\<close>

text \<open>
  The \<open>for\<close> loop of \<open>query_model\<close> over \<open>PROVIDER_CONFIGS.items()\<close>: the state is
  the pair \<open>(provider_name, model_name)\<close>, which starts as
  \<open>(None, model_identifier)\<close>; the first entry whose prefix matches sets both and
  breaks.
\<close>

fun scan_providers :: "registry \<Rightarrow> string \<Rightarrow> string option \<times> string" where
  "scan_providers [] model_identifier = (None, model_identifier)"
| "scan_providers ((provider, config) # rest) model_identifier =
     (if prefix (model_prefix config) model_identifier
      then (Some provider, drop (length (model_prefix config)) model_identifier)
      else scan_providers rest model_identifier)"

text \<open>
  \<open>if not provider_name: provider_name = "openrouter"\<close>. Python's \<open>not\<close> holds of
  \<open>None\<close> and of the empty string.
\<close>

definition resolve :: "registry \<Rightarrow> string \<Rightarrow> string \<times> string" where
  "resolve reg model_identifier =
     (case scan_providers reg model_identifier of
        (None, model_name) \<Rightarrow> (''openrouter'', model_name)
      | (Some provider_name, model_name) \<Rightarrow>
          (if provider_name = [] then (''openrouter'', model_name)
           else (provider_name, model_name)))"

subsection \<open>Parsed JSON and Python's subscripts\<close>

text \<open>
  The Python value that \<open>response.json()\<close> returns. A dict is an association
  list; a Python dict holds each key once, and a list that repeats a key stands
  for the dict of its first bindings. Numbers that are not integers are kept as
  their literal, which the client never inspects.
\<close>

datatype pyval =
    PNone
  | PBool bool
  | PInt int
  | PFloat string
  | PStr string
  | PList "pyval list"
  | PDict "(string \<times> pyval) list"

text \<open>
  The exceptions that the body of the \<open>try\<close> statement raises. All of them are
  subclasses of \<open>Exception\<close>, which is what the handler catches.
\<close>

datatype py_exception =
    ConnectError
  | TimeoutException
  | HTTPStatusError int
  | JSONDecodeError
  | KeyError
  | IndexError
  | TypeError
  | AttributeError

text \<open>\<open>obj[key]\<close> for a string key: only a dict accepts it.\<close>

fun getitem_str :: "pyval \<Rightarrow> string \<Rightarrow> py_exception + pyval" where
  "getitem_str (PDict d) k = (case map_of d k of None \<Rightarrow> Inl KeyError | Some v \<Rightarrow> Inr v)"
| "getitem_str PNone k = Inl TypeError"
| "getitem_str (PBool b) k = Inl TypeError"
| "getitem_str (PInt i) k = Inl TypeError"
| "getitem_str (PFloat f) k = Inl TypeError"
| "getitem_str (PStr s) k = Inl TypeError"
| "getitem_str (PList xs) k = Inl TypeError"

text \<open>
  \<open>obj[0]\<close>: the first element of a list, the first character of a string; a dict
  parsed from JSON has string keys only, so \<open>0\<close> is never one of them.
\<close>

fun getitem_0 :: "pyval \<Rightarrow> py_exception + pyval" where
  "getitem_0 (PList []) = Inl IndexError"
| "getitem_0 (PList (x # xs)) = Inr x"
| "getitem_0 (PStr []) = Inl IndexError"
| "getitem_0 (PStr (c # cs)) = Inr (PStr [c])"
| "getitem_0 (PDict d) = Inl KeyError"
| "getitem_0 PNone = Inl TypeError"
| "getitem_0 (PBool b) = Inl TypeError"
| "getitem_0 (PInt i) = Inl TypeError"
| "getitem_0 (PFloat f) = Inl TypeError"

text \<open>\<open>obj.get(key)\<close>: a method of dicts only; a missing key gives \<open>None\<close>.\<close>

fun get_method :: "pyval \<Rightarrow> string \<Rightarrow> py_exception + pyval" where
  "get_method (PDict d) k = Inr (case map_of d k of None \<Rightarrow> PNone | Some v \<Rightarrow> v)"
| "get_method PNone k = Inl AttributeError"
| "get_method (PBool b) k = Inl AttributeError"
| "get_method (PInt i) k = Inl AttributeError"
| "get_method (PFloat f) k = Inl AttributeError"
| "get_method (PStr s) k = Inl AttributeError"
| "get_method (PList xs) k = Inl AttributeError"

subsection \<open>The HTTP transport and the world\<close>

type_synonym message = "(string \<times> string) list"

record payload =
  model :: string
  messages :: "message list"

text \<open>What \<open>AsyncClient(timeout=timeout).post(api_url, headers=headers, json=payload)\<close> sends.\<close>

record request =
  url :: string
  headers :: "(string \<times> string) list"
  json :: payload
  timeout :: real

text \<open>
  A response: its status code, and the parsed body, \<open>None\<close> when the body is not
  JSON (then \<open>response.json()\<close> raises).
\<close>

record response =
  status_code :: int
  json_body :: "pyval option"

datatype outcome = Raises py_exception | Responds response

text \<open>
  The transport answers a request from its own state \<open>'n\<close> (so that the same
  request may be answered differently at different times).
\<close>

type_synonym 'n transport = "'n \<Rightarrow> request \<Rightarrow> outcome \<times> 'n"

text \<open>The three \<open>print\<close> calls of \<open>query_model\<close>, with the values they interpolate.\<close>

datatype diagnostic =
    Unknown_provider string
  | Key_not_configured string string
  | Query_failed string string string py_exception

text \<open>
  The world a dispatch acts on: the transport's state, the requests posted so far
  and the lines printed so far.
\<close>

record 'n world =
  net :: 'n
  calls :: "request list"
  printed :: "diagnostic list"

definition print :: "diagnostic \<Rightarrow> 'n world \<Rightarrow> 'n world" where
  "print d w = w\<lparr>printed := printed w @ [d]\<rparr>"

definition post :: "'n transport \<Rightarrow> request \<Rightarrow> 'n world \<Rightarrow> outcome \<times> 'n world" where
  "post tr req w =
     (case tr (net w) req of
        (out, n') \<Rightarrow> (out, w\<lparr>net := n', calls := calls w @ [req]\<rparr>))"

text \<open>\<open>response.raise_for_status()\<close> of httpx: any status outside 200..299 raises.\<close>

definition raise_for_status :: "response \<Rightarrow> py_exception + unit" where
  "raise_for_status r =
     (if 200 \<le> status_code r \<and> status_code r \<le> 299 then Inr ()
      else Inl (HTTPStatusError (status_code r)))"

definition response_json :: "response \<Rightarrow> py_exception + pyval" where
  "response_json r = (case json_body r of None \<Rightarrow> Inl JSONDecodeError | Some d \<Rightarrow> Inr d)"

subsection \<open>\<open>query_model\<close>\<close>

record normalized_result =
  content :: pyval
  reasoning_details :: pyval

text \<open>
  \<open>message = data['choices'][0]['message']\<close> and the dict that is returned, with
  every subscript that can raise.
\<close>

definition extract_result :: "pyval \<Rightarrow> py_exception + normalized_result" where
  "extract_result data =
     (case getitem_str data ''choices'' of
        Inl e \<Rightarrow> Inl e
      | Inr choices \<Rightarrow>
     (case getitem_0 choices of
        Inl e \<Rightarrow> Inl e
      | Inr choice \<Rightarrow>
     (case getitem_str choice ''message'' of
        Inl e \<Rightarrow> Inl e
      | Inr message \<Rightarrow>
     (case get_method message ''content'' of
        Inl e \<Rightarrow> Inl e
      | Inr c \<Rightarrow>
     (case get_method message ''reasoning_details'' of
        Inl e \<Rightarrow> Inl e
      | Inr rd \<Rightarrow> Inr \<lparr>content = c, reasoning_details = rd\<rparr>)))))"

text \<open>The body of the \<open>try\<close> statement: the value returned or the exception raised.\<close>

definition try_body :: "'n transport \<Rightarrow> request \<Rightarrow> 'n world \<Rightarrow> (py_exception + normalized_result) \<times> 'n world" where
  "try_body tr req w =
     (case post tr req w of
        (Raises e, w') \<Rightarrow> (Inl e, w')
      | (Responds r, w') \<Rightarrow>
          (case raise_for_status r of
             Inl e \<Rightarrow> (Inl e, w')
           | Inr u \<Rightarrow>
               (case response_json r of
                  Inl e \<Rightarrow> (Inl e, w')
                | Inr data \<Rightarrow> (extract_result data, w'))))"

text \<open>\<open>not api_key\<close>: the key is \<open>None\<close> or the empty string.\<close>

fun not_key :: "string option \<Rightarrow> bool" where
  "not_key None = True"
| "not_key (Some k) = (k = [])"

text \<open>
  The headers, the payload and the arguments of \<open>post\<close>. The f-string of the
  \<open>Authorization\<close> header formats the key; \<open>query_model\<close> gets here with a
  non-empty key only.
\<close>

definition build_request :: "provider_config \<Rightarrow> string \<Rightarrow> message list \<Rightarrow> real \<Rightarrow> request" where
  "build_request config model_name msgs t =
     \<lparr>url = api_url config,
      headers = [(''Authorization'',
                    header_auth_prefix config @ (case api_key config of None \<Rightarrow> ''None'' | Some k \<Rightarrow> k)),
                 (''Content-Type'', ''application/json'')],
      json = \<lparr>model = model_name, messages = msgs\<rparr>,
      timeout = t\<rparr>"

text \<open>
  \<open>query_model\<close>, with the provider table as a parameter. The result is the
  returned value (\<open>None\<close> or the dict) and the world after the call.
\<close>

definition query_model ::
  "registry \<Rightarrow> 'n transport \<Rightarrow> string \<Rightarrow> message list \<Rightarrow> real \<Rightarrow> 'n world
     \<Rightarrow> normalized_result option \<times> 'n world" where
  "query_model reg tr model_identifier msgs t w =
     (case resolve reg model_identifier of
        (provider_name, model_name) \<Rightarrow>
     (case map_of reg provider_name of
        None \<Rightarrow> (None, print (Unknown_provider model_identifier) w)
      | Some config \<Rightarrow>
          if not_key (api_key config)
          then (None, print (Key_not_configured provider_name model_identifier) w)
          else
            (case try_body tr (build_request config model_name msgs t) w of
               (Inr result, w') \<Rightarrow> (Some result, w')
             | (Inl e, w') \<Rightarrow>
                 (None, print (Query_failed model_identifier provider_name (api_url config) e) w'))))"

text \<open>The default of the parameter \<open>timeout\<close>.\<close>

definition default_timeout :: real where
  "default_timeout = 120"

subsection \<open>\<open>asyncio.gather\<close>\<close>

text \<open>
  A coroutine that has not been started is a function of the world it will run
  in. A dispatch waits once, for the network; it is run as a single step at the
  moment it completes.
\<close>

type_synonym ('n, 'a) coroutine = "'n world \<Rightarrow> 'a \<times> 'n world"

text \<open>
  The event loop and the network decide in which order the tasks complete. That
  choice is the parameter \<open>sched\<close>, a list of positions; every list is read as a
  complete order of the \<open>n\<close> tasks: positions out of range and repetitions are
  dropped, and the tasks it leaves out complete afterwards.
\<close>

definition completion_order :: "nat \<Rightarrow> nat list \<Rightarrow> nat list" where
  "completion_order n sched =
     remdups (filter (\<lambda>i. i < n) sched) @ filter (\<lambda>i. i \<notin> set sched) [0..<n]"

text \<open>
  Running the tasks in a given order of completion (\<open>gather\<close> passes positions
  below the number of tasks only). The result is the log of completions, each
  with the position of its task, and the final world.
\<close>

fun run_tasks :: "nat list \<Rightarrow> ('n, 'a) coroutine list \<Rightarrow> 'n world \<Rightarrow> (nat \<times> 'a) list \<times> 'n world" where
  "run_tasks [] tasks w = ([], w)"
| "run_tasks (i # order) tasks w =
     (case (tasks ! i) w of
        (r, w1) \<Rightarrow>
          (case run_tasks order tasks w1 of
             (finished, w2) \<Rightarrow> ((i, r) # finished, w2)))"

text \<open>
  \<open>asyncio.gather(*tasks)\<close> waits for all tasks and returns their results in the
  order of its arguments, whatever the order of completion.
\<close>

definition gather :: "nat list \<Rightarrow> ('n, 'a) coroutine list \<Rightarrow> 'n world \<Rightarrow> 'a list \<times> 'n world" where
  "gather sched tasks w =
     (case run_tasks (completion_order (length tasks) sched) tasks w of
        (finished, w') \<Rightarrow> (map snd (sort_key fst finished), w'))"

subsection \<open>\<open>query_models_parallel\<close>\<close>

text \<open>
  The dict comprehension over \<open>zip(model_identifiers, responses)\<close>: a Python dict
  keeps the position of a key's first insertion and the value of its last, which
  is \<open>AList.update\<close>.
\<close>

definition dict_of_pairs :: "('k \<times> 'v) list \<Rightarrow> ('k \<times> 'v) list" where
  "dict_of_pairs kvs = fold (\<lambda>(k, v) d. AList.update k v d) kvs []"

text \<open>
  \<open>tasks = [query_model(model_id, messages) for model_id in model_identifiers]\<close>:
  no timeout is passed, so each call takes the default.
\<close>

definition create_tasks ::
  "registry \<Rightarrow> 'n transport \<Rightarrow> string list \<Rightarrow> message list
     \<Rightarrow> ('n, normalized_result option) coroutine list" where
  "create_tasks reg tr model_identifiers msgs =
     map (\<lambda>model_id. query_model reg tr model_id msgs default_timeout) model_identifiers"

definition query_models_parallel ::
  "nat list \<Rightarrow> registry \<Rightarrow> 'n transport \<Rightarrow> string list \<Rightarrow> message list \<Rightarrow> 'n world
     \<Rightarrow> (string \<times> normalized_result option) list \<times> 'n world" where
  "query_models_parallel sched reg tr model_identifiers msgs w =
     (case gather sched (create_tasks reg tr model_identifiers msgs) w of
        (responses, w') \<Rightarrow> (dict_of_pairs (zip model_identifiers responses), w'))"

subsection \<open>Example inputs\<close>

definition example_env :: config_module where
  "example_env =
     \<lparr>OPENROUTER_API_KEY = Some ''sk-or'',
      OPENROUTER_API_URL = ''https://openrouter.ai/api/v1/chat/completions'',
      DEEPSEEK_API_KEY = Some ''sk-ds'',
      OPENAI_API_KEY = None\<rparr>"

text \<open>A table in which two prefixes match the identifier \<open>openai::gpt-4o\<close>.\<close>

definition overlapping_registry :: registry where
  "overlapping_registry =
     [(''deepseek'',
        \<lparr>api_key = Some ''k0'', api_url = ''u0'', model_prefix = ''deepseek::'',
         header_auth_prefix = ''Bearer ''\<rparr>),
      (''short'',
        \<lparr>api_key = Some ''k1'', api_url = ''u1'', model_prefix = ''open'',
         header_auth_prefix = ''Bearer ''\<rparr>),
      (''long'',
        \<lparr>api_key = Some ''k2'', api_url = ''u2'', model_prefix = ''openai::'',
         header_auth_prefix = ''Bearer ''\<rparr>)]"

definition start_world :: "'n \<Rightarrow> 'n world" where
  "start_world n = \<lparr>net = n, calls = [], printed = []\<rparr>"

text \<open>The body \<open>{"choices":[{"message":{"content":"hi"}}]}\<close>.\<close>

definition hi_body :: pyval where
  "hi_body = PDict [(''choices'', PList [PDict [(''message'', PDict [(''content'', PStr ''hi'')])]])]"

definition transport_200_hi :: "unit transport" where
  "transport_200_hi n req = (Responds \<lparr>status_code = 200, json_body = Some hi_body\<rparr>, n)"

definition transport_500 :: "unit transport" where
  "transport_500 n req = (Responds \<lparr>status_code = 500, json_body = None\<rparr>, n)"

text \<open>A transport that fails for the DeepSeek endpoint and succeeds elsewhere.\<close>

definition transport_by_url :: "unit transport" where
  "transport_by_url n req =
     (if url req = DEEPSEEK_API_URL then (Raises ConnectError, n)
      else (Responds \<lparr>status_code = 200, json_body = Some hi_body\<rparr>, n))"

text \<open>A transport whose answers are numbered: the content is the number of earlier calls.\<close>

definition counting_transport :: "nat transport" where
  "counting_transport n req =
     (Responds \<lparr>status_code = 200,
        json_body = Some (PDict [(''choices'', PList [PDict [(''message'', PDict [(''content'', PInt (int n))])]])])\<rparr>,
      Suc n)"

subsection \<open>The mapping as the specification words it\<close>

text \<open>
  This definition follows the specification, not the code: one write per
  dispatch, in the order of completion, so that among duplicates the dispatch
  that completes last fixes the value.
\<close>

definition last_write_by_completion :: "'k list \<Rightarrow> (nat \<times> 'v) list \<Rightarrow> ('k \<times> 'v) list" where
  "last_write_by_completion ids finished = dict_of_pairs (map (\<lambda>(i, r). (ids ! i, r)) finished)"

section \<open>Properties\<close>

subsection \<open>Resolution\<close>

lemma scan_providers_first_match:
  assumes "\<forall>e \<in> set pre. \<not> prefix (model_prefix (snd e)) mid"
    and "prefix (model_prefix c) mid"
  shows "scan_providers (pre @ (p, c) # others) mid = (Some p, drop (length (model_prefix c)) mid)"
  using assms by (induction pre) auto

lemma scan_providers_no_match:
  assumes "\<forall>e \<in> set reg. \<not> prefix (model_prefix (snd e)) mid"
  shows "scan_providers reg mid = (None, mid)"
  using assms by (induction reg) auto

subsection \<open>A single dispatch\<close>

lemma try_body_snd:
  "snd (try_body tr req w) = w\<lparr>net := snd (tr (net w) req), calls := calls w @ [req]\<rparr>"
  by (simp add: try_body_def post_def split: prod.splits outcome.splits sum.splits)

lemma try_body_fst:
  "fst (try_body tr req w) =
     (case fst (tr (net w) req) of
        Raises e \<Rightarrow> Inl e
      | Responds r \<Rightarrow>
          (case raise_for_status r of
             Inl e \<Rightarrow> Inl e
           | Inr u \<Rightarrow> (case response_json r of Inl e \<Rightarrow> Inl e | Inr d \<Rightarrow> extract_result d)))"
  by (simp add: try_body_def post_def split: prod.splits outcome.splits sum.splits)

lemma query_model_eq:
  "query_model reg tr mid msgs t w =
     (case map_of reg (fst (resolve reg mid)) of
        None \<Rightarrow> (None, print (Unknown_provider mid) w)
      | Some config \<Rightarrow>
          if not_key (api_key config)
          then (None, print (Key_not_configured (fst (resolve reg mid)) mid) w)
          else
            (case fst (try_body tr (build_request config (snd (resolve reg mid)) msgs t) w) of
               Inr result \<Rightarrow>
                 (Some result, snd (try_body tr (build_request config (snd (resolve reg mid)) msgs t) w))
             | Inl e \<Rightarrow>
                 (None, print (Query_failed mid (fst (resolve reg mid)) (api_url config) e)
                   (snd (try_body tr (build_request config (snd (resolve reg mid)) msgs t) w)))))"
  by (simp add: query_model_def split: prod.splits option.splits sum.splits)

text \<open>Three ways in which an expected field is missing from a body.\<close>

lemma extract_result_missing_fields:
  "map_of d ''choices'' = None \<Longrightarrow> extract_result (PDict d) = Inl KeyError"
  "map_of d ''choices'' = Some (PList []) \<Longrightarrow> extract_result (PDict d) = Inl IndexError"
  "map_of d ''choices'' = Some (PList (PDict c # cs)) \<Longrightarrow> map_of c ''message'' = None
     \<Longrightarrow> extract_result (PDict d) = Inl KeyError"
  by (simp_all add: extract_result_def)

text \<open>A message that is not an object has no \<open>.get\<close>.\<close>

lemma extract_result_message_null:
  "map_of d ''choices'' = Some (PList (PDict c # cs)) \<Longrightarrow> map_of c ''message'' = Some PNone
     \<Longrightarrow> extract_result (PDict d) = Inl AttributeError"
  by (simp add: extract_result_def)

text \<open>A dispatch that gets as far as the network posts exactly one request.\<close>

lemma query_model_calls:
  assumes "map_of reg (fst (resolve reg mid)) = Some config" and "\<not> not_key (api_key config)"
  shows "calls (snd (query_model reg tr mid msgs t w))
           = calls w @ [build_request config (snd (resolve reg mid)) msgs t]"
  using assms by (auto simp: query_model_eq try_body_snd print_def split: sum.splits)

lemma query_model_no_calls:
  assumes "map_of reg (fst (resolve reg mid)) = None
         \<or> (\<exists>config. map_of reg (fst (resolve reg mid)) = Some config \<and> not_key (api_key config))"
  shows "calls (snd (query_model reg tr mid msgs t w)) = calls w"
  using assms by (auto simp: query_model_eq print_def)

lemma example_openrouter_call:
  "calls (snd (query_model (PROVIDER_CONFIGS example_env) tr ''openrouter::a'' [] 120 (start_world n)))
     = [\<lparr>url = ''https://openrouter.ai/api/v1/chat/completions'',
         headers = [(''Authorization'', ''Bearer sk-or''), (''Content-Type'', ''application/json'')],
         json = \<lparr>model = ''a'', messages = []\<rparr>, timeout = 120\<rparr>]"
proof -
  have r: "resolve (PROVIDER_CONFIGS example_env) ''openrouter::a'' = (''openrouter'', ''a'')"
    by (simp add: PROVIDER_CONFIGS_def resolve_def)
  have m: "map_of (PROVIDER_CONFIGS example_env) (fst (resolve (PROVIDER_CONFIGS example_env) ''openrouter::a''))
     = Some \<lparr>api_key = Some ''sk-or'', api_url = ''https://openrouter.ai/api/v1/chat/completions'',
         model_prefix = ''openrouter::'', header_auth_prefix = ''Bearer ''\<rparr>"
    unfolding r by (simp add: PROVIDER_CONFIGS_def example_env_def)
  show ?thesis
    using query_model_calls [OF m, of tr "[]" 120 "start_world n"]
    by (simp add: r build_request_def start_world_def)
qed

subsection \<open>Claims about resolution\<close>

text \<open>
  C4: an identifier \<open>p::m\<close> whose prefix \<open>p::\<close> belongs to a provider of the table
  resolves to provider \<open>p\<close> and the bare name \<open>m\<close>. The scan follows the order of
  registration: in any table, an entry named \<open>p'\<close> (a non-empty name) whose prefix
  matches, and before which no entry's prefix matches, wins over all later
  entries, and exactly its prefix is stripped.
\<close>

theorem resolve_registered_prefix:
  "(\<forall>(p, c) \<in> set (PROVIDER_CONFIGS env).
      model_prefix c = p @ ''::'' \<and> resolve (PROVIDER_CONFIGS env) (p @ ''::'' @ m) = (p, m))
   \<and> ((\<forall>e \<in> set pre. \<not> prefix (model_prefix (snd e)) (model_prefix c' @ m')) \<and> p' \<noteq> [] \<longrightarrow>
        resolve (pre @ (p', c') # others) (model_prefix c' @ m') = (p', m'))"
proof (intro conjI impI)
  show "\<forall>(p, c) \<in> set (PROVIDER_CONFIGS env).
      model_prefix c = p @ ''::'' \<and> resolve (PROVIDER_CONFIGS env) (p @ ''::'' @ m) = (p, m)"
    by (simp add: PROVIDER_CONFIGS_def resolve_def)
next
  assume h: "(\<forall>e \<in> set pre. \<not> prefix (model_prefix (snd e)) (model_prefix c' @ m')) \<and> p' \<noteq> []"
  then have "scan_providers (pre @ (p', c') # others) (model_prefix c' @ m') = (Some p', m')"
    using scan_providers_first_match [of pre "model_prefix c' @ m'" c' p' others] by simp
  then show "resolve (pre @ (p', c') # others) (model_prefix c' @ m') = (p', m')"
    using h by (simp add: resolve_def)
qed

theorem resolve_registered_prefix_witness:
  "resolve (PROVIDER_CONFIGS example_env) ''deepseek::deepseek-chat'' = (''deepseek'', ''deepseek-chat'')
   \<and> resolve overlapping_registry ''openai::gpt-4o'' = (''short'', ''ai::gpt-4o'')"
  using resolve_registered_prefix [of example_env "''deepseek-chat''"
      "[(''deepseek'', \<lparr>api_key = Some ''k0'', api_url = ''u0'', model_prefix = ''deepseek::'',
         header_auth_prefix = ''Bearer ''\<rparr>)]"
      "\<lparr>api_key = Some ''k1'', api_url = ''u1'', model_prefix = ''open'',
         header_auth_prefix = ''Bearer ''\<rparr>"
      "''ai::gpt-4o''" "''short''"
      "[(''long'', \<lparr>api_key = Some ''k2'', api_url = ''u2'', model_prefix = ''openai::'',
         header_auth_prefix = ''Bearer ''\<rparr>)]"]
  by (simp add: PROVIDER_CONFIGS_def overlapping_registry_def)

text \<open>
  C5: an identifier that starts with none of the registered prefixes resolves to
  the provider \<open>openrouter\<close> with the identifier as the model name, and when that
  provider has a credential the request posted carries the identifier unchanged
  as its \<open>model\<close>.
\<close>

theorem resolve_default_provider:
  assumes "\<forall>e \<in> set reg. \<not> prefix (model_prefix (snd e)) mid"
  shows "resolve reg mid = (''openrouter'', mid)
       \<and> (\<forall>config. map_of reg ''openrouter'' = Some config \<and> \<not> not_key (api_key config) \<longrightarrow>
            calls (snd (query_model reg tr mid msgs t w)) = calls w @ [build_request config mid msgs t]
            \<and> model (json (build_request config mid msgs t)) = mid)"
proof -
  have r: "resolve reg mid = (''openrouter'', mid)"
    using scan_providers_no_match [OF assms] by (simp add: resolve_def)
  show ?thesis
    using r query_model_calls [of reg mid _ tr msgs t w] by (simp add: build_request_def)
qed

theorem resolve_default_provider_witness:
  "resolve (PROVIDER_CONFIGS example_env) ''gpt-4o'' = (''openrouter'', ''gpt-4o'')
   \<and> map (\<lambda>r. model (json r))
        (calls (snd (query_model (PROVIDER_CONFIGS example_env) transport_200_hi ''gpt-4o'' [] 120 (start_world ()))))
      = [''gpt-4o'']"
proof -
  have h: "\<forall>e \<in> set (PROVIDER_CONFIGS example_env). \<not> prefix (model_prefix (snd e)) ''gpt-4o''"
    by (simp add: PROVIDER_CONFIGS_def)
  show ?thesis
    using resolve_default_provider [OF h, of transport_200_hi "[]" 120 "start_world ()"]
    by (simp add: PROVIDER_CONFIGS_def example_env_def start_world_def)
qed

subsection \<open>Claims about a single dispatch\<close>

text \<open>
  C3: when the credential of the resolved provider is \<open>None\<close> or the empty string,
  \<open>query_model\<close> returns \<open>None\<close> and the transport is not used: no request is
  added to the log of calls and the transport's state is unchanged.
\<close>

theorem query_model_missing_key:
  assumes "resolve reg mid = (p, m)" and "map_of reg p = Some config"
    and "api_key config = None \<or> api_key config = Some []"
  shows "fst (query_model reg tr mid msgs t w) = None
       \<and> calls (snd (query_model reg tr mid msgs t w)) = calls w
       \<and> net (snd (query_model reg tr mid msgs t w)) = net w"
  using assms by (auto simp: query_model_eq print_def)

theorem query_model_missing_key_witness:
  "fst (query_model (PROVIDER_CONFIGS example_env) transport_200_hi ''openai::gpt-4o'' [] 120 (start_world ())) = None
   \<and> calls (snd (query_model (PROVIDER_CONFIGS example_env) transport_200_hi ''openai::gpt-4o'' [] 120 (start_world ()))) = []"
proof -
  have h1: "resolve (PROVIDER_CONFIGS example_env) ''openai::gpt-4o'' = (''openai'', ''gpt-4o'')"
    by (simp add: PROVIDER_CONFIGS_def resolve_def)
  have h2: "map_of (PROVIDER_CONFIGS example_env) ''openai''
     = Some \<lparr>api_key = None, api_url = OPENAI_API_URL, model_prefix = ''openai::'', header_auth_prefix = ''Bearer ''\<rparr>"
    by (simp add: PROVIDER_CONFIGS_def example_env_def)
  have h3: "api_key \<lparr>api_key = None, api_url = OPENAI_API_URL, model_prefix = ''openai::'', header_auth_prefix = ''Bearer ''\<rparr> = None
     \<or> api_key \<lparr>api_key = None, api_url = OPENAI_API_URL, model_prefix = ''openai::'', header_auth_prefix = ''Bearer ''\<rparr> = Some []"
    by simp
  show ?thesis
    using query_model_missing_key [OF h1 h2 h3, of transport_200_hi "[]" 120 "start_world ()"]
    by (simp add: start_world_def)
qed

text \<open>
  C1: if the request that \<open>query_model\<close> posts is answered by an exception of the
  transport (network failure, timeout), by a status outside 200..299, by a body
  that is not JSON, or by a body from which
  \<open>data['choices'][0]['message']\<close> and the two \<open>.get\<close> calls cannot be read,
  then \<open>query_model\<close> returns \<open>None\<close>. (In the model the result of
  \<open>query_model\<close> is always a returned value, \<open>None\<close> or a dict: the handler
  catches every exception of the \<open>try\<close> body.)
\<close>

theorem query_model_fault_gives_None:
  assumes "query_model reg tr mid msgs t w = (res, w')"
    and "calls w' = calls w @ [req]"
    and "tr (net w) req = (out, n')"
    and "(\<exists>e. out = Raises e)
       \<or> (\<exists>r. out = Responds r
             \<and> (status_code r < 200 \<or> 299 < status_code r \<or> json_body r = None
                  \<or> (\<exists>d e. json_body r = Some d \<and> extract_result d = Inl e)))"
  shows "res = None"
proof (cases "map_of reg (fst (resolve reg mid))")
  case None
  then show ?thesis using assms(1) by (simp add: query_model_eq)
next
  case (Some config)
  show ?thesis
  proof (cases "not_key (api_key config)")
    case True
    then show ?thesis using Some assms(1) by (simp add: query_model_eq)
  next
    case False
    let ?req = "build_request config (snd (resolve reg mid)) msgs t"
    have "calls w' = calls w @ [?req]"
      using query_model_calls [OF Some False, of tr msgs t w] assms(1) by simp
    then have req: "req = ?req" using assms(2) by simp
    have "\<exists>e. fst (try_body tr ?req w) = Inl e"
      using assms(3,4) unfolding req[symmetric]
      by (auto simp: try_body_fst raise_for_status_def response_json_def)
    then show ?thesis
      using Some False assms(1) by (auto simp: query_model_eq)
  qed
qed

theorem query_model_fault_gives_None_witness:
  "fst (query_model (PROVIDER_CONFIGS example_env) transport_500 ''openrouter::a'' [] 120 (start_world ())) = None
   \<and> length (calls (snd (query_model (PROVIDER_CONFIGS example_env) transport_500 ''openrouter::a'' [] 120 (start_world ())))) = 1"
proof -
  let ?q = "query_model (PROVIDER_CONFIGS example_env) transport_500 ''openrouter::a'' [] 120 (start_world ())"
  let ?req = "\<lparr>url = ''https://openrouter.ai/api/v1/chat/completions'',
         headers = [(''Authorization'', ''Bearer sk-or''), (''Content-Type'', ''application/json'')],
         json = \<lparr>model = ''a'', messages = []\<rparr>, timeout = 120\<rparr>"
  have h1: "?q = (fst ?q, snd ?q)" by simp
  have h2: "calls (snd ?q) = calls (start_world ()) @ [?req]"
    by (simp add: example_openrouter_call) (simp add: start_world_def)
  have h3: "transport_500 (net (start_world ())) ?req = (Responds \<lparr>status_code = 500, json_body = None\<rparr>, ())"
    by (simp add: transport_500_def)
  have h4: "(\<exists>e. Responds \<lparr>status_code = 500, json_body = None\<rparr> = Raises e)
       \<or> (\<exists>r. Responds \<lparr>status_code = 500, json_body = None\<rparr> = Responds r
             \<and> (status_code r < 200 \<or> 299 < status_code r \<or> json_body r = None
                  \<or> (\<exists>d e. json_body r = Some d \<and> extract_result d = Inl e)))"
    by simp
  have "fst ?q = None" using query_model_fault_gives_None [OF h1 h2 h3 h4] .
  then show ?thesis by (simp add: example_openrouter_call)
qed

text \<open>
  C6: if the request that \<open>query_model\<close> posts is answered with a status in
  200..299 and a JSON body whose \<open>choices[0].message\<close> is an object, the result
  is the dict with \<open>content\<close> and \<open>reasoning_details\<close> taken from that object,
  each \<open>None\<close> when the key is absent. For the body
  \<open>{"choices":[{"message":{"content":"hi"}}]}\<close> with status 200 the result is
  \<open>{content: "hi", reasoning_details: None}\<close>.
\<close>

theorem query_model_success_result:
  assumes "query_model reg tr mid msgs t w = (res, w')"
    and "calls w' = calls w @ [req]"
    and "tr (net w) req = (Responds r, n')"
    and "200 \<le> status_code r" and "status_code r \<le> 299"
    and "json_body r = Some (PDict d)"
    and "map_of d ''choices'' = Some (PList (PDict c # cs))"
    and "map_of c ''message'' = Some (PDict m)"
  shows "res = Some \<lparr>content = (case map_of m ''content'' of None \<Rightarrow> PNone | Some v \<Rightarrow> v),
                     reasoning_details = (case map_of m ''reasoning_details'' of None \<Rightarrow> PNone | Some v \<Rightarrow> v)\<rparr>"
proof (cases "map_of reg (fst (resolve reg mid))")
  case None
  then show ?thesis using assms(1,2) by (auto simp: query_model_eq print_def)
next
  case (Some config)
  show ?thesis
  proof (cases "not_key (api_key config)")
    case True
    then show ?thesis using Some assms(1,2) by (auto simp: query_model_eq print_def)
  next
    case False
    let ?req = "build_request config (snd (resolve reg mid)) msgs t"
    have "calls w' = calls w @ [?req]"
      using query_model_calls [OF Some False, of tr msgs t w] assms(1) by simp
    then have req: "req = ?req" using assms(2) by simp
    have "fst (try_body tr ?req w) = Inr \<lparr>content = (case map_of m ''content'' of None \<Rightarrow> PNone | Some v \<Rightarrow> v),
                     reasoning_details = (case map_of m ''reasoning_details'' of None \<Rightarrow> PNone | Some v \<Rightarrow> v)\<rparr>"
      using assms(3-8) unfolding req[symmetric]
      by (simp add: try_body_fst raise_for_status_def response_json_def extract_result_def)
    then show ?thesis
      using Some False assms(1) by (auto simp: query_model_eq)
  qed
qed

theorem query_model_success_result_witness:
  "fst (query_model (PROVIDER_CONFIGS example_env) transport_200_hi ''openrouter::a'' [] 120 (start_world ()))
     = Some \<lparr>content = PStr ''hi'', reasoning_details = PNone\<rparr>"
proof -
  let ?q = "query_model (PROVIDER_CONFIGS example_env) transport_200_hi ''openrouter::a'' [] 120 (start_world ())"
  let ?req = "\<lparr>url = ''https://openrouter.ai/api/v1/chat/completions'',
         headers = [(''Authorization'', ''Bearer sk-or''), (''Content-Type'', ''application/json'')],
         json = \<lparr>model = ''a'', messages = []\<rparr>, timeout = 120\<rparr>"
  have h1: "?q = (fst ?q, snd ?q)" by simp
  have h2: "calls (snd ?q) = calls (start_world ()) @ [?req]"
    by (simp add: example_openrouter_call) (simp add: start_world_def)
  have h3: "transport_200_hi (net (start_world ())) ?req
      = (Responds \<lparr>status_code = 200,
           json_body = Some (PDict [(''choices'', PList [PDict [(''message'', PDict [(''content'', PStr ''hi'')])]])])\<rparr>, ())"
    by (simp add: transport_200_hi_def hi_body_def)
  have "fst ?q = Some \<lparr>content = (case map_of [(''content'', PStr ''hi'')] ''content'' of None \<Rightarrow> PNone | Some v \<Rightarrow> v),
                     reasoning_details = (case map_of [(''content'', PStr ''hi'')] ''reasoning_details'' of None \<Rightarrow> PNone | Some v \<Rightarrow> v)\<rparr>"
  proof (rule query_model_success_result [OF h1 h2 h3])
    show "200 \<le> status_code \<lparr>status_code = 200,
           json_body = Some (PDict [(''choices'', PList [PDict [(''message'', PDict [(''content'', PStr ''hi'')])]])])\<rparr>"
      by simp
    show "status_code \<lparr>status_code = 200,
           json_body = Some (PDict [(''choices'', PList [PDict [(''message'', PDict [(''content'', PStr ''hi'')])]])])\<rparr> \<le> 299"
      by simp
    show "json_body \<lparr>status_code = 200,
           json_body = Some (PDict [(''choices'', PList [PDict [(''message'', PDict [(''content'', PStr ''hi'')])]])])\<rparr>
        = Some (PDict [(''choices'', PList [PDict [(''message'', PDict [(''content'', PStr ''hi'')])]])])"
      by simp
    show "map_of [(''choices'', PList [PDict [(''message'', PDict [(''content'', PStr ''hi'')])]])] ''choices''
        = Some (PList (PDict [(''message'', PDict [(''content'', PStr ''hi'')])] # []))"
      by simp
    show "map_of [(''message'', PDict [(''content'', PStr ''hi'')])] ''message'' = Some (PDict [(''content'', PStr ''hi'')])"
      by simp
  qed
  then show ?thesis by simp
qed

subsection \<open>Claims about the fan-out\<close>

text \<open>
  C9: for the empty list of identifiers \<open>query_models_parallel\<close> returns the
  empty dict and leaves the world as it was: nothing is posted and nothing is
  printed.
\<close>

theorem query_models_parallel_empty:
  "query_models_parallel sched reg tr [] msgs w = ([], w)"
  by (simp add: query_models_parallel_def create_tasks_def gather_def completion_order_def dict_of_pairs_def)

subsection \<open>Gathering and the dict\<close>

lemma completion_order_set: "set (completion_order n sched) = {0..<n}"
  by (auto simp: completion_order_def)

lemma completion_order_distinct: "distinct (completion_order n sched)"
  by (auto simp: completion_order_def)

lemma run_tasks_Cons:
  "run_tasks (i # order) tasks w =
     ((i, fst ((tasks ! i) w)) # fst (run_tasks order tasks (snd ((tasks ! i) w))),
      snd (run_tasks order tasks (snd ((tasks ! i) w))))"
  by (simp split: prod.splits)

lemma gather_eq:
  "gather sched tasks w =
     (map snd (sort_key fst (fst (run_tasks (completion_order (length tasks) sched) tasks w))),
      snd (run_tasks (completion_order (length tasks) sched) tasks w))"
  by (simp add: gather_def split: prod.splits)

lemma run_tasks_positions: "map fst (fst (run_tasks order tasks w)) = order"
  by (induction order arbitrary: w) (simp_all add: run_tasks_Cons del: run_tasks.simps(2))

lemma sort_key_positions:
  assumes "distinct (map fst finished)" and "set (map fst finished) = {0..<n}"
  shows "map fst (sort_key fst finished) = [0..<n]"
proof (rule sorted_distinct_set_unique)
  show "sorted (map fst (sort_key fst finished))" by (rule sorted_sort_key)
  have "set (map fst (sort_key fst finished)) = set (map fst finished)" by simp
  then have "card (set (map fst (sort_key fst finished))) = card (set (map fst finished))"
    by (simp only:)
  also have "\<dots> = length (map fst finished)" using assms(1) by (rule distinct_card)
  finally have "card (set (map fst (sort_key fst finished))) = length (map fst (sort_key fst finished))"
    by simp
  then show "distinct (map fst (sort_key fst finished))" by (rule card_distinct)
  show "sorted [0..<n]" by simp
  show "distinct [0..<n]" by simp
  show "set (map fst (sort_key fst finished)) = set [0..<n]" using assms(2) by simp
qed

lemma gather_positions:
  "map fst (sort_key fst (fst (run_tasks (completion_order n sched) tasks w))) = [0..<n]"
  by (rule sort_key_positions) (simp_all add: run_tasks_positions completion_order_set completion_order_distinct)

lemma length_gather: "length (fst (gather sched tasks w)) = length tasks"
proof -
  have "length (map fst (sort_key fst (fst (run_tasks (completion_order (length tasks) sched) tasks w)))) = length [0..<length tasks]"
    by (simp only: gather_positions)
  then show ?thesis by (simp add: gather_eq)
qed

lemma gather_nth:
  assumes "i < length tasks"
  shows "map_of (fst (run_tasks (completion_order (length tasks) sched) tasks w)) i = Some (fst (gather sched tasks w) ! i)"
proof -
  let ?fin = "fst (run_tasks (completion_order (length tasks) sched) tasks w)"
  let ?sd = "sort_key fst ?fin"
  have pos: "map fst ?sd = [0..<length tasks]" by (rule gather_positions)
  then have len: "length ?sd = length tasks" by (metis length_map length_upt minus_nat.diff_0)
  have "fst (?sd ! i) = i" using pos assms len by (metis nth_map nth_upt add_0)
  then have "(i, snd (?sd ! i)) \<in> set ?sd" using assms len by (metis nth_mem prod.collapse)
  then have mem: "(i, snd (?sd ! i)) \<in> set ?fin" by simp
  have "distinct (map fst ?fin)" by (simp add: run_tasks_positions completion_order_distinct)
  then have "map_of ?fin i = Some (snd (?sd ! i))" using mem by simp
  moreover have "fst (gather sched tasks w) ! i = snd (?sd ! i)"
    using assms len by (simp add: gather_eq)
  ultimately show ?thesis by simp
qed

lemma dict_of_pairs_fold_keys:
  "fst ` set (fold (\<lambda>(k, v) d. AList.update k v d) kvs al) = fst ` set kvs \<union> fst ` set al"
  by (induction kvs arbitrary: al) (auto simp: AList.dom_update split: prod.splits)

lemma dict_of_pairs_keys: "fst ` set (dict_of_pairs kvs) = fst ` set kvs"
  by (simp add: dict_of_pairs_def dict_of_pairs_fold_keys)

lemma dict_of_pairs_fold_distinct:
  "distinct (map fst al) \<Longrightarrow> distinct (map fst (fold (\<lambda>(k, v) d. AList.update k v d) kvs al))"
  by (induction kvs arbitrary: al) (auto simp: AList.distinct_update split: prod.splits)

lemma dict_of_pairs_distinct: "distinct (map fst (dict_of_pairs kvs))"
  by (simp add: dict_of_pairs_def dict_of_pairs_fold_distinct)

lemma map_of_fold_update:
  "map_of (fold (\<lambda>(k, v) d. AList.update k v d) kvs al) = map_of al ++ map_of (rev kvs)"
  by (induction kvs arbitrary: al) (auto simp: AList.update_conv' split: prod.splits)

lemma map_of_dict_of_pairs: "map_of (dict_of_pairs kvs) = map_of (rev kvs)"
  by (simp add: dict_of_pairs_def map_of_fold_update)

lemma length_create_tasks: "length (create_tasks reg tr ids msgs) = length ids"
  by (simp add: create_tasks_def)

lemma query_models_parallel_eq:
  "query_models_parallel sched reg tr ids msgs w =
     (dict_of_pairs (zip ids (fst (gather sched (create_tasks reg tr ids msgs) w))),
      snd (gather sched (create_tasks reg tr ids msgs) w))"
  by (simp add: query_models_parallel_def split: prod.splits)

lemma map_of_rev_zip_last:
  assumes "length ks = length vs" and "i < length ks" and "ks ! i = x"
    and "\<forall>j. i < j \<and> j < length ks \<longrightarrow> ks ! j \<noteq> x"
  shows "map_of (rev (zip ks vs)) x = Some (vs ! i)"
  using assms
proof (induction ks vs arbitrary: i rule: list_induct2)
  case Nil
  then show ?case by simp
next
  case (Cons k ks v vs)
  show ?case
  proof (cases i)
    case 0
    have "x \<notin> set ks"
    proof
      assume "x \<in> set ks"
      then obtain j where "j < length ks" "ks ! j = x" by (auto simp: in_set_conv_nth)
      then show False using Cons.prems(3) [rule_format, of "Suc j"] 0 by simp
    qed
    then have "map_of (rev (zip ks vs)) x = None"
      by (auto simp: map_of_eq_None_iff dest: set_zip_leftD)
    then show ?thesis using 0 Cons.prems(2) by (simp add: map_add_def)
  next
    case (Suc i')
    have "map_of (rev (zip ks vs)) x = Some (vs ! i')"
    proof (rule Cons.IH)
      show "i' < length ks" using Cons.prems(1) Suc by simp
      show "ks ! i' = x" using Cons.prems(2) Suc by simp
      show "\<forall>j. i' < j \<and> j < length ks \<longrightarrow> ks ! j \<noteq> x"
        using Cons.prems(3) Suc by (metis Suc_less_eq length_Cons nth_Cons_Suc)
    qed
    then show ?thesis using Suc by (simp add: map_add_def)
  qed
qed

lemma one_entry:
  "distinct (map fst al) \<Longrightarrow> x \<in> fst ` set al \<Longrightarrow> length (filter (\<lambda>e. fst e = x) al) = 1"
proof (induction al)
  case Nil
  then show ?case by simp
next
  case (Cons a al)
  show ?case
  proof (cases "fst a = x")
    case True
    then have "x \<notin> fst ` set al" using Cons.prems(1) by auto
    then have "filter (\<lambda>e. fst e = x) al = []" by (auto simp: filter_empty_conv)
    then show ?thesis using True by simp
  next
    case False
    then show ?thesis using Cons by auto
  qed
qed

subsection \<open>The requests of a fan-out\<close>

lemma query_model_calls_shape:
  "\<exists>new. calls (snd (query_model reg tr mid msgs t w)) = calls w @ new \<and> (\<forall>r \<in> set new. timeout r = t)"
proof (cases "map_of reg (fst (resolve reg mid))")
  case None
  then show ?thesis using query_model_no_calls [of reg mid tr msgs t w] by simp
next
  case (Some config)
  show ?thesis
  proof (cases "not_key (api_key config)")
    case True
    then show ?thesis using Some query_model_no_calls [of reg mid tr msgs t w] by simp
  next
    case False
    then show ?thesis using query_model_calls [OF Some False, of tr msgs t w]
      by (simp add: build_request_def)
  qed
qed

lemma run_tasks_calls:
  assumes "\<forall>i \<in> set order. \<forall>w. \<exists>new. calls (snd ((tasks ! i) w)) = calls w @ new \<and> (\<forall>r \<in> set new. P r)"
  shows "\<exists>new. calls (snd (run_tasks order tasks w)) = calls w @ new \<and> (\<forall>r \<in> set new. P r)"
  using assms
proof (induction order arbitrary: w)
  case Nil
  then show ?case by simp
next
  case (Cons i order)
  let ?w1 = "snd ((tasks ! i) w)"
  have "\<exists>new. calls ?w1 = calls w @ new \<and> (\<forall>r \<in> set new. P r)"
    using Cons.prems by simp
  then obtain n1 where n1: "calls ?w1 = calls w @ n1" "\<forall>r \<in> set n1. P r"
    by blast
  have "\<exists>new. calls (snd (run_tasks order tasks ?w1)) = calls ?w1 @ new \<and> (\<forall>r \<in> set new. P r)"
    using Cons.IH [of ?w1] Cons.prems by simp
  then obtain n2 where n2: "calls (snd (run_tasks order tasks ?w1)) = calls ?w1 @ n2" "\<forall>r \<in> set n2. P r"
    by blast
  have "calls (snd (run_tasks (i # order) tasks w)) = calls w @ (n1 @ n2)"
    using n1(1) n2(1) by (simp add: run_tasks_Cons del: run_tasks.simps(2))
  moreover have "\<forall>r \<in> set (n1 @ n2). P r" using n1(2) n2(2) by auto
  ultimately show ?case by blast
qed

lemma run_tasks_posts:
  assumes "i \<in> set order"
    and "\<forall>j \<in> set order. \<forall>w. \<exists>new. calls (snd ((tasks ! j) w)) = calls w @ new"
    and "\<forall>w. calls (snd ((tasks ! i) w)) = calls w @ [req]"
  shows "\<exists>new. calls (snd (run_tasks order tasks w)) = calls w @ new \<and> req \<in> set new"
  using assms(1,2)
proof (induction order arbitrary: w)
  case Nil
  then show ?case by simp
next
  case (Cons j order)
  let ?w1 = "snd ((tasks ! j) w)"
  have "\<exists>new. calls ?w1 = calls w @ new" using Cons.prems(2) by simp
  then obtain n1 where n1: "calls ?w1 = calls w @ n1" by blast
  have rest: "\<forall>k \<in> set order. \<forall>w. \<exists>new. calls (snd ((tasks ! k) w)) = calls w @ new \<and> (\<forall>r \<in> set new. True)"
    using Cons.prems(2) by simp
  show ?case
  proof (cases "i = j")
    case True
    then have "calls ?w1 = calls w @ [req]" using assms(3) by simp
    moreover obtain n2 where "calls (snd (run_tasks order tasks ?w1)) = calls ?w1 @ n2"
      using run_tasks_calls [OF rest, of ?w1] by blast
    ultimately have "calls (snd (run_tasks (j # order) tasks w)) = calls w @ (req # n2)"
      by (simp add: run_tasks_Cons del: run_tasks.simps(2))
    then show ?thesis by (metis list.set_intros(1))
  next
    case False
    then have "i \<in> set order" using Cons.prems(1) by simp
    then have "\<exists>new. calls (snd (run_tasks order tasks ?w1)) = calls ?w1 @ new \<and> req \<in> set new"
      using Cons.IH [of ?w1] Cons.prems(2) by simp
    then obtain n2 where n2: "calls (snd (run_tasks order tasks ?w1)) = calls ?w1 @ n2" "req \<in> set n2"
      by blast
    have "calls (snd (run_tasks (j # order) tasks w)) = calls w @ (n1 @ n2)"
      using n1 n2(1) by (simp add: run_tasks_Cons del: run_tasks.simps(2))
    moreover have "req \<in> set (n1 @ n2)" using n2(2) by simp
    ultimately show ?thesis by blast
  qed
qed

subsection \<open>Further claims about the fan-out\<close>

text \<open>
  C2: whatever the transport answers and in whatever order the dispatches
  complete, the keys of the dict returned by \<open>query_models_parallel\<close> are exactly
  the input identifiers, each key once. A dispatch that fails leaves its key in
  the dict, with the value \<open>None\<close>.
\<close>

theorem query_models_parallel_keys:
  "dom (map_of (fst (query_models_parallel sched reg tr ids msgs w))) = set ids
   \<and> distinct (map fst (fst (query_models_parallel sched reg tr ids msgs w)))"
proof -
  have "length (fst (gather sched (create_tasks reg tr ids msgs) w)) = length ids"
    by (simp add: length_gather length_create_tasks)
  then have "fst ` set (zip ids (fst (gather sched (create_tasks reg tr ids msgs) w))) = set ids"
    by (metis map_fst_zip set_map)
  then show ?thesis
    by (simp add: query_models_parallel_eq dom_map_of_conv_image_fst dict_of_pairs_keys dict_of_pairs_distinct)
qed

theorem query_models_parallel_keys_witness:
  "fst (query_models_parallel [1, 0] (PROVIDER_CONFIGS example_env) transport_by_url
        [''openrouter::a'', ''deepseek::b''] [] (start_world ()))
     = [(''openrouter::a'', Some \<lparr>content = PStr ''hi'', reasoning_details = PNone\<rparr>),
        (''deepseek::b'', None)]
   \<and> dom (map_of (fst (query_models_parallel [1, 0] (PROVIDER_CONFIGS example_env) transport_by_url
        [''openrouter::a'', ''deepseek::b''] [] (start_world ()))))
     = {''openrouter::a'', ''deepseek::b''}"
proof -
  have ex: "fst (query_models_parallel [1, 0] (PROVIDER_CONFIGS example_env) transport_by_url
        [''openrouter::a'', ''deepseek::b''] [] (start_world ()))
     = [(''openrouter::a'', Some \<lparr>content = PStr ''hi'', reasoning_details = PNone\<rparr>),
        (''deepseek::b'', None)]"
    by code_simp
  show ?thesis
    using query_models_parallel_keys [of "[1, 0]" "PROVIDER_CONFIGS example_env" transport_by_url
        "[''openrouter::a'', ''deepseek::b'']" "[]" "start_world ()"] ex
    by simp
qed

text \<open>
  C7, as the code has it: an identifier that occurs in the input list has
  exactly one entry in the dict, and its value is the result of the dispatch at
  the identifier's last position in the input list, whatever the order of
  completion (\<open>gather\<close> returns the results in the order of its arguments).
\<close>

theorem duplicates_keep_last_position:
  assumes "i < length ids" and "ids ! i = x"
    and "\<forall>j. i < j \<and> j < length ids \<longrightarrow> ids ! j \<noteq> x"
  shows "length (filter (\<lambda>e. fst e = x) (fst (query_models_parallel sched reg tr ids msgs w))) = 1
       \<and> map_of (fst (query_models_parallel sched reg tr ids msgs w)) x
           = map_of (fst (run_tasks (completion_order (length ids) sched) (create_tasks reg tr ids msgs) w)) i
       \<and> map_of (fst (query_models_parallel sched reg tr ids msgs w)) x \<noteq> None"
proof -
  let ?tasks = "create_tasks reg tr ids msgs"
  let ?responses = "fst (gather sched ?tasks w)"
  let ?dict = "fst (query_models_parallel sched reg tr ids msgs w)"
  have len: "length ids = length ?responses"
    by (simp add: length_gather length_create_tasks)
  have "fst ` set (zip ids ?responses) = set ids"
    using len by (metis map_fst_zip set_map)
  then have "x \<in> fst ` set ?dict"
    using assms(1,2) by (auto simp: query_models_parallel_eq dict_of_pairs_keys)
  moreover have "distinct (map fst ?dict)"
    by (simp add: query_models_parallel_eq dict_of_pairs_distinct)
  ultimately have one: "length (filter (\<lambda>e. fst e = x) ?dict) = 1" by (simp add: one_entry)
  have "map_of ?dict x = Some (?responses ! i)"
    using map_of_rev_zip_last [OF len assms]
    by (simp add: query_models_parallel_eq map_of_dict_of_pairs)
  moreover have "map_of (fst (run_tasks (completion_order (length ids) sched) ?tasks w)) i = Some (?responses ! i)"
    using gather_nth [of i ?tasks sched w] assms(1) by (simp add: length_create_tasks)
  ultimately show ?thesis using one by simp
qed

theorem duplicates_keep_last_position_witness:
  "(1::nat) < length [''openrouter::a'', ''openrouter::a'']
   \<and> length (filter (\<lambda>e. fst e = ''openrouter::a'')
        (fst (query_models_parallel [1, 0] (PROVIDER_CONFIGS example_env) counting_transport
           [''openrouter::a'', ''openrouter::a''] [] (start_world 0)))) = 1
   \<and> map_of (fst (query_models_parallel [1, 0] (PROVIDER_CONFIGS example_env) counting_transport
           [''openrouter::a'', ''openrouter::a''] [] (start_world 0))) ''openrouter::a''
       = Some (Some \<lparr>content = PInt 0, reasoning_details = PNone\<rparr>)"
proof -
  have h1: "(1::nat) < length [''openrouter::a'', ''openrouter::a'']" by simp
  have h2: "[''openrouter::a'', ''openrouter::a''] ! 1 = ''openrouter::a''" by simp
  have h3: "\<forall>j. 1 < j \<and> j < length [''openrouter::a'', ''openrouter::a'']
              \<longrightarrow> [''openrouter::a'', ''openrouter::a''] ! j \<noteq> ''openrouter::a''"
    by simp
  have fin: "fst (run_tasks (completion_order (length [''openrouter::a'', ''openrouter::a'']) [1, 0])
        (create_tasks (PROVIDER_CONFIGS example_env) counting_transport
           [''openrouter::a'', ''openrouter::a''] []) (start_world 0))
     = [(1, Some \<lparr>content = PInt 0, reasoning_details = PNone\<rparr>),
        (0, Some \<lparr>content = PInt 1, reasoning_details = PNone\<rparr>)]"
    by code_simp
  show ?thesis
    using duplicates_keep_last_position [OF h1 h2 h3, of "[1, 0]" "PROVIDER_CONFIGS example_env"
        counting_transport "[]" "start_world 0"]
    unfolding fin by simp
qed

text \<open>
  C7, as the claim states it, fails. Two dispatches of the same identifier, the
  second of which completes first: the dispatch that completes last (position 0)
  returns the content 1, which is what writing in the order of completion would
  keep, but the dict holds the content 0 of the dispatch at the last position.
\<close>

theorem duplicates_completion_order_counterexample:
  "map_of (fst (query_models_parallel [1, 0] (PROVIDER_CONFIGS example_env) counting_transport
        [''openrouter::a'', ''openrouter::a''] [] (start_world 0))) ''openrouter::a''
     = Some (Some \<lparr>content = PInt 0, reasoning_details = PNone\<rparr>)
   \<and> map_of (last_write_by_completion [''openrouter::a'', ''openrouter::a'']
        (fst (run_tasks (completion_order 2 [1, 0])
           (create_tasks (PROVIDER_CONFIGS example_env) counting_transport
              [''openrouter::a'', ''openrouter::a''] []) (start_world 0)))) ''openrouter::a''
     = Some (Some \<lparr>content = PInt 1, reasoning_details = PNone\<rparr>)
   \<and> map_of (fst (query_models_parallel [1, 0] (PROVIDER_CONFIGS example_env) counting_transport
        [''openrouter::a'', ''openrouter::a''] [] (start_world 0))) ''openrouter::a''
     \<noteq> map_of (last_write_by_completion [''openrouter::a'', ''openrouter::a'']
        (fst (run_tasks (completion_order 2 [1, 0])
           (create_tasks (PROVIDER_CONFIGS example_env) counting_transport
              [''openrouter::a'', ''openrouter::a''] []) (start_world 0)))) ''openrouter::a''"
proof -
  have a: "map_of (fst (query_models_parallel [1, 0] (PROVIDER_CONFIGS example_env) counting_transport
        [''openrouter::a'', ''openrouter::a''] [] (start_world 0))) ''openrouter::a''
     = Some (Some \<lparr>content = PInt 0, reasoning_details = PNone\<rparr>)"
    by code_simp
  have b: "map_of (last_write_by_completion [''openrouter::a'', ''openrouter::a'']
        (fst (run_tasks (completion_order 2 [1, 0])
           (create_tasks (PROVIDER_CONFIGS example_env) counting_transport
              [''openrouter::a'', ''openrouter::a''] []) (start_world 0)))) ''openrouter::a''
     = Some (Some \<lparr>content = PInt 1, reasoning_details = PNone\<rparr>)"
    by code_simp
  show ?thesis unfolding a b by simp
qed

text \<open>
  C10: \<open>query_models_parallel\<close> has no timeout parameter and calls \<open>query_model\<close>
  without one, so every request that the fan-out posts carries the default
  timeout 120, and every identifier whose provider is registered with a
  credential has its request, with that timeout, among them.
\<close>

theorem fan_out_uses_default_timeout:
  "\<exists>new. calls (snd (query_models_parallel sched reg tr ids msgs w)) = calls w @ new
     \<and> (\<forall>r \<in> set new. timeout r = 120)
     \<and> (\<forall>i < length ids. \<forall>config.
           map_of reg (fst (resolve reg (ids ! i))) = Some config \<and> \<not> not_key (api_key config) \<longrightarrow>
           build_request config (snd (resolve reg (ids ! i))) msgs 120 \<in> set new)"
proof -
  let ?tasks = "create_tasks reg tr ids msgs"
  let ?order = "completion_order (length ?tasks) sched"
  let ?w' = "snd (run_tasks ?order ?tasks w)"
  have final: "snd (query_models_parallel sched reg tr ids msgs w) = ?w'"
    by (simp add: query_models_parallel_eq gather_eq)
  have task: "?tasks ! i = query_model reg tr (ids ! i) msgs 120" if "i < length ids" for i
    using that by (simp add: create_tasks_def default_timeout_def)
  have in_range: "i < length ids" if "i \<in> set ?order" for i
    using that by (simp add: completion_order_set length_create_tasks)
  have each: "\<forall>i \<in> set ?order. \<forall>w. \<exists>new. calls (snd ((?tasks ! i) w)) = calls w @ new
      \<and> (\<forall>r \<in> set new. timeout r = 120)"
    using in_range task query_model_calls_shape by metis
  obtain new where new: "calls ?w' = calls w @ new" "\<forall>r \<in> set new. timeout r = 120"
    using run_tasks_calls [OF each, of w] by blast
  have "build_request config (snd (resolve reg (ids ! i))) msgs 120 \<in> set new"
    if i: "i < length ids" and c: "map_of reg (fst (resolve reg (ids ! i))) = Some config"
      and k: "\<not> not_key (api_key config)" for i config
  proof -
    have mem: "i \<in> set ?order" using i by (simp add: completion_order_set length_create_tasks)
    have grow: "\<forall>j \<in> set ?order. \<forall>w. \<exists>new. calls (snd ((?tasks ! j) w)) = calls w @ new"
      using each by blast
    have "\<forall>w. calls (snd ((?tasks ! i) w)) = calls w @ [build_request config (snd (resolve reg (ids ! i))) msgs 120]"
      using query_model_calls [OF c k, of tr msgs 120] task [OF i] by simp
    then obtain new' where "calls ?w' = calls w @ new'"
        "build_request config (snd (resolve reg (ids ! i))) msgs 120 \<in> set new'"
      using run_tasks_posts [OF mem grow, of _ w] by blast
    then show ?thesis using new(1) by simp
  qed
  then show ?thesis using new final by auto
qed

theorem fan_out_uses_default_timeout_witness:
  "map timeout (calls (snd (query_models_parallel [1, 0] (PROVIDER_CONFIGS example_env) transport_by_url
        [''openrouter::a'', ''deepseek::b''] [] (start_world ())))) = [120, 120]"
proof -
  have c: "calls (snd (query_models_parallel [1, 0] (PROVIDER_CONFIGS example_env) transport_by_url
        [''openrouter::a'', ''deepseek::b''] [] (start_world ())))
     = [build_request \<lparr>api_key = Some ''sk-ds'', api_url = DEEPSEEK_API_URL,
           model_prefix = ''deepseek::'', header_auth_prefix = ''Bearer ''\<rparr> ''b'' [] default_timeout,
        build_request \<lparr>api_key = Some ''sk-or'', api_url = ''https://openrouter.ai/api/v1/chat/completions'',
           model_prefix = ''openrouter::'', header_auth_prefix = ''Bearer ''\<rparr> ''a'' [] default_timeout]"
    by code_simp
  have s: "calls (start_world ()) = []" by (simp add: start_world_def)
  show ?thesis
    using fan_out_uses_default_timeout [of "[1, 0]" "PROVIDER_CONFIGS example_env" transport_by_url
        "[''openrouter::a'', ''deepseek::b'']" "[]" "start_world ()"]
    unfolding c s by auto
qed

end
